theory Spec2Isabelle
  imports Complex_Main
begin

section \<open>Candles and the synthetic pair (binance.js)\<close>

text \<open>
  A candle as \<open>getKlines\<close> builds it: \<open>{time, open, high, low, close, volume}\<close>.
  \<open>time\<close> is \<open>Math.floor(k[0] / 1000)\<close>, an integer number of seconds. The four
  prices and the volume are JavaScript numbers; their type is left as the
  parameter \<open>'p\<close>, and the only operation the synthetic pair needs on it is a
  division, so every statement below holds for whatever division the number
  type has.
\<close>

record 'p kline =
  time :: int
  "open" :: 'p
  high :: 'p
  low :: 'p
  close :: 'p
  volume :: 'p

text \<open>
  \<open>new Map(entries)\<close> inserts the entries from left to right, a later entry
  replacing an earlier one with the same key.
\<close>

definition Map_of :: "('k \<times> 'v) list \<Rightarrow> ('k \<rightharpoonup> 'v)" where
  "Map_of entries = foldl (\<lambda>m (k, v). m(k \<mapsto> v)) Map.empty entries"

text \<open>\<open>const klinesBMap = new Map(klinesB.map(k => [k.time, k]))\<close>\<close>

definition klinesBMap :: "'p kline list \<Rightarrow> (int \<rightharpoonup> 'p kline)" where
  "klinesBMap klinesB = Map_of (map (\<lambda>k. (time k, k)) klinesB)"

text \<open>
  The callback of \<open>klinesA.map\<close>: \<open>null\<close> (here \<open>None\<close>) when series B has no
  candle at the timestamp, the candle of the four ratios otherwise.
\<close>

definition ratio :: "'p::inverse kline \<Rightarrow> 'p kline \<Rightarrow> 'p kline" where
  "ratio klineA klineB =
     \<lparr> time = time klineA,
       open = open klineA / open klineB,
       high = high klineA / high klineB,
       low = low klineA / low klineB,
       close = close klineA / close klineB,
       volume = volume klineA \<rparr>"

definition synthetic :: "(int \<rightharpoonup> 'p kline) \<Rightarrow> 'p::inverse kline \<Rightarrow> 'p kline option" where
  "synthetic m klineA =
     (case m (time klineA) of
        None \<Rightarrow> None
      | Some klineB \<Rightarrow> Some (ratio klineA klineB))"

text \<open>
  Lines 302 to 325 of \<open>getSyntheticPair\<close>: the map over series A followed by
  \<open>.filter(k => k !== null)\<close>.
\<close>

definition syntheticKlines :: "'p::inverse kline list \<Rightarrow> 'p kline list \<Rightarrow> 'p kline list" where
  "syntheticKlines klinesA klinesB =
     map the (filter (\<lambda>k. k \<noteq> None) (map (synthetic (klinesBMap klinesB)) klinesA))"


section \<open>The provider, getKlines and getSyntheticPair (binance.js)\<close>

text \<open>
  What one \<open>axios.get\<close> on \<open>/api/v3/klines\<close> comes to, as far as \<open>getKlines\<close>
  tells the cases apart: the rows of a successful response, already decoded
  into candles; a failure with status 429; a failure carrying the provider's
  \<open>msg\<close>; any other failure, with its message.
\<close>

datatype 'p answer =
    Rows "'p kline list"
  | TooManyRequests
  | ApiMsg string
  | Failure string

text \<open>
  Everything outside the program that one request handler run depends on: the
  provider (by symbol, interval and limit), which of two failing fetches rejects
  first, the rounding \<open>parseFloat(x.toFixed(2))\<close> of the number type, and the
  clock (in seconds) when the handler reads the cache and when, after the
  fetches have settled, it writes to it.
\<close>

record 'p world =
  axios_get :: "string \<Rightarrow> string \<Rightarrow> int \<Rightarrow> 'p answer"
  bRejectsFirst :: bool
  toFixed2 :: "'p \<Rightarrow> 'p"
  arrival :: nat
  settled :: nat

definition getKlines :: "'p world \<Rightarrow> string \<Rightarrow> string \<Rightarrow> int \<Rightarrow> string + 'p kline list" where
  "getKlines w symbol interval limit =
     (case axios_get w symbol interval (min limit 1000) of
        Rows klines \<Rightarrow> Inr klines
      | TooManyRequests \<Rightarrow> Inl ''Rate limit exceeded. Please try again later.''
      | ApiMsg msg \<Rightarrow> Inl (''Binance API error: '' @ msg)
      | Failure msg \<Rightarrow> Inl (''Failed to fetch klines: '' @ msg))"

text \<open>
  \<open>getSyntheticPair\<close> starts both fetches before it awaits either, so both
  symbols are always requested; the second component of the result lists them.
  \<open>Promise.all\<close> rejects with the rejection that comes first, and the
  \<open>catch\<close> rethrows it unchanged.
\<close>

definition getSyntheticPair ::
  "'p::inverse world \<Rightarrow> string \<Rightarrow> string \<Rightarrow> string \<Rightarrow> int \<Rightarrow> (string + 'p kline list) \<times> string list" where
  "getSyntheticPair w coinA coinB interval limit =
     (case (getKlines w (coinA @ ''USDT'') interval limit,
            getKlines w (coinB @ ''USDT'') interval limit) of
        (Inr klinesA, Inr klinesB) \<Rightarrow> Inr (syntheticKlines klinesA klinesB)
      | (Inl errorA, Inr klinesB) \<Rightarrow> Inl errorA
      | (Inr klinesA, Inl errorB) \<Rightarrow> Inl errorB
      | (Inl errorA, Inl errorB) \<Rightarrow> Inl (if bRejectsFirst w then errorB else errorA),
      [coinA @ ''USDT'', coinB @ ''USDT''])"

section \<open>The cache manager (cache.js)\<close>

text \<open>
  \<open>ttlMap\<close> is an object literal, and \<open>ttlMap[interval]\<close> is a property read:
  it finds the fifteen own properties and, for any other name, whatever the
  object inherits from \<open>Object.prototype\<close>, which is a function or an object
  (so truthy, and returned by \<open>||\<close>) for the twelve names below. Any other
  name reads \<open>undefined\<close>.
\<close>

datatype ttl = Seconds nat | Inherited string

definition ttlMap :: "(string \<times> nat) list" where
  "ttlMap =
     [(''1m'', 60), (''3m'', 180), (''5m'', 300), (''15m'', 600), (''30m'', 900),
      (''1h'', 1800), (''2h'', 3600), (''4h'', 7200), (''6h'', 10800), (''8h'', 14400),
      (''12h'', 21600), (''1d'', 43200), (''3d'', 86400), (''1w'', 172800),
      (''1M'', 259200)]"

definition Object_prototype :: "string list" where
  "Object_prototype =
     [''constructor'', ''__defineGetter__'', ''__defineSetter__'', ''hasOwnProperty'',
      ''__lookupGetter__'', ''__lookupSetter__'', ''isPrototypeOf'',
      ''propertyIsEnumerable'', ''toString'', ''valueOf'', ''__proto__'',
      ''toLocaleString'']"

text \<open>\<open>return ttlMap[interval] || 300\<close>\<close>

definition getTTL :: "string \<Rightarrow> ttl" where
  "getTTL interval =
     (case map_of ttlMap interval of
        Some n \<Rightarrow> if n = 0 then Seconds 300 else Seconds n
      | None \<Rightarrow> if interval \<in> set Object_prototype then Inherited interval else Seconds 300)"

text \<open>The template string \<open>`${coinA}_${coinB}_${interval}`\<close>.\<close>

definition generateKey :: "string \<Rightarrow> string \<Rightarrow> string \<Rightarrow> string" where
  "generateKey coinA coinB interval = coinA @ ''_'' @ coinB @ ''_'' @ interval"

text \<open>
  Modelled from the spec: the store behind \<open>CacheManager\<close> is the third-party
  \<open>node-cache\<close> package, whose source is not part of the repository. Following
  sections 3 and 4.2 of the specification it is a mapping from keys to entries,
  each entry holding the value as it was given (\<open>useClones: false\<close>, no copy)
  and its expiry, the time of the \<open>set\<close> plus the TTL; \<open>get\<close> answers the value
  or absent and drops an entry it finds expired; \<open>set\<close> answers success;
  \<open>del\<close> answers the number of entries removed, zero for an unknown key. A
  TTL that is not a number gives an expiry that is not a number, which no
  comparison finds in the past. Hit and miss counters and the periodic sweep
  are left out.
\<close>

datatype expiry = At nat | NotANumber

record 'v entry =
  val :: 'v
  expires :: expiry

type_synonym 'v NodeCache = "string \<rightharpoonup> 'v entry"

definition expiry_of :: "nat \<Rightarrow> ttl \<Rightarrow> expiry" where
  "expiry_of now x = (case x of Seconds n \<Rightarrow> At (now + n) | Inherited name \<Rightarrow> NotANumber)"

definition expired :: "nat \<Rightarrow> 'v entry \<Rightarrow> bool" where
  "expired now e = (case expires e of At limit \<Rightarrow> limit < now | NotANumber \<Rightarrow> False)"

definition NodeCache_get :: "nat \<Rightarrow> 'v NodeCache \<Rightarrow> string \<Rightarrow> 'v option \<times> 'v NodeCache" where
  "NodeCache_get now c key =
     (case c key of
        None \<Rightarrow> (None, c)
      | Some e \<Rightarrow> if expired now e then (None, c(key := None)) else (Some (val e), c))"

definition NodeCache_set :: "nat \<Rightarrow> 'v NodeCache \<Rightarrow> string \<Rightarrow> 'v \<Rightarrow> ttl \<Rightarrow> bool \<times> 'v NodeCache" where
  "NodeCache_set now c key data x = (True, c(key \<mapsto> \<lparr> val = data, expires = expiry_of now x \<rparr>))"

definition NodeCache_del :: "'v NodeCache \<Rightarrow> string \<Rightarrow> nat \<times> 'v NodeCache" where
  "NodeCache_del c key = (if c key = None then 0 else 1, c(key := None))"

text \<open>
  The methods of \<open>CacheManager\<close>; the store \<open>this.cache\<close> is passed in and
  returned, and the log lines are left out.
\<close>

definition cache_get ::
  "nat \<Rightarrow> 'v NodeCache \<Rightarrow> string \<Rightarrow> string \<Rightarrow> string \<Rightarrow> 'v option \<times> 'v NodeCache" where
  "cache_get now c coinA coinB interval = NodeCache_get now c (generateKey coinA coinB interval)"

definition cache_set ::
  "nat \<Rightarrow> 'v NodeCache \<Rightarrow> string \<Rightarrow> string \<Rightarrow> string \<Rightarrow> 'v \<Rightarrow> bool \<times> 'v NodeCache" where
  "cache_set now c coinA coinB interval data =
     NodeCache_set now c (generateKey coinA coinB interval) data (getTTL interval)"

definition cache_delete ::
  "'v NodeCache \<Rightarrow> string \<Rightarrow> string \<Rightarrow> string \<Rightarrow> nat \<times> 'v NodeCache" where
  "cache_delete c coinA coinB interval = NodeCache_del c (generateKey coinA coinB interval)"


section \<open>The request handlers (index.js)\<close>

text \<open>
  \<open>String.prototype.toUpperCase\<close> on the letters \<open>a\<close> to \<open>z\<close>; a \<open>string\<close>
  here is a list of bytes, and the other bytes are kept.
\<close>

definition toUpperCase :: "string \<Rightarrow> string" where
  "toUpperCase s =
     map (\<lambda>ch. let n = (of_char ch :: nat) in if 97 \<le> n \<and> n \<le> 122 then char_of (n - 32) else ch) s"

text \<open>
  The body of a response: the two error bodies with their status, the body of
  \<open>/api/klines\<close> (pair, interval, count, data, stats) and the body of
  \<open>/api/refresh\<close> (message, pair, count).
\<close>

record 'p stats =
  currentPrice :: 'p
  openPrice :: 'p
  highPrice :: 'p
  lowPrice :: 'p
  priceChange :: 'p
  priceChangePercent :: 'p
  timestamp :: int

datatype 'p response =
    Status400 string
  | Status500 string
  | KlinesJson string string nat "'p kline list" "'p stats"
  | RefreshJson string string nat

text \<open>
  What a handler run leaves behind: the response sent, the store afterwards,
  and the symbols requested from the provider, in order.
\<close>

record 'p outcome =
  res :: "'p response"
  store :: "'p kline list NodeCache"
  fetched :: "string list"

text \<open>
  Lines 94 to 114. On an empty array \<open>klines[klines.length - 1]\<close> and
  \<open>klines[0]\<close> are \<open>undefined\<close>, and reading \<open>latestCandle.close\<close> throws a
  TypeError, whose message the \<open>catch\<close> sends with status 500.
\<close>

definition TypeError_close :: string where
  "TypeError_close = ''Cannot read properties of undefined (reading 'close')''"

definition statistics ::
  "('p \<Rightarrow> 'p) \<Rightarrow> 'p::{inverse,minus,times,numeral,ord} kline list \<Rightarrow> string + 'p stats" where
  "statistics fix2 klines =
     (case klines of
        [] \<Rightarrow> Inl TypeError_close
      | firstCandle # rest \<Rightarrow>
          let latestCandle = last klines;
              change = close latestCandle - close firstCandle
          in Inr \<lparr> currentPrice = close latestCandle,
                   openPrice = open firstCandle,
                   highPrice = foldl max (high firstCandle) (map high rest),
                   lowPrice = foldl min (low firstCandle) (map low rest),
                   priceChange = change,
                   priceChangePercent = fix2 (change / close firstCandle * 100),
                   timestamp = time latestCandle \<rparr>)"

definition klines_json ::
  "'p::{inverse,minus,times,numeral,ord} world \<Rightarrow> string \<Rightarrow> string \<Rightarrow> string \<Rightarrow> 'p kline list \<Rightarrow>
   'p kline list NodeCache \<Rightarrow> string list \<Rightarrow> 'p outcome" where
  "klines_json w coinA coinB interval klines c fs =
     (case statistics (toFixed2 w) klines of
        Inl message \<Rightarrow> \<lparr> res = Status500 message, store = c, fetched = fs \<rparr>
      | Inr s \<Rightarrow>
          \<lparr> res = KlinesJson (coinA @ ''/'' @ coinB) interval (length klines) klines s,
            store = c, fetched = fs \<rparr>)"

text \<open>
  \<open>app.get('/api/klines')\<close>. The four query parameters are optional strings
  (\<open>None\<close> for \<open>undefined\<close>), \<open>limit\<close> already read by \<open>parseInt\<close>; \<open>!coinA\<close>
  holds of \<open>undefined\<close> and of the empty string. A cached value is an array,
  which is truthy also when empty, so \<open>!klines\<close> holds exactly on a miss.
\<close>

definition api_klines ::
  "'p::{inverse,minus,times,numeral,ord} world \<Rightarrow> 'p kline list NodeCache \<Rightarrow>
   string option \<Rightarrow> string option \<Rightarrow> string option \<Rightarrow> int option \<Rightarrow> 'p outcome" where
  "api_klines w c qCoinA qCoinB qInterval qLimit =
     (let interval = (case qInterval of None \<Rightarrow> ''1h'' | Some i \<Rightarrow> i);
          limit = (case qLimit of None \<Rightarrow> 500 | Some l \<Rightarrow> l);
          missing = \<lparr> res = Status400 ''Missing required parameters: coinA and coinB'',
                      store = c, fetched = [] \<rparr>
      in case (qCoinA, qCoinB) of
           (Some coinA, Some coinB) \<Rightarrow>
             if coinA = [] \<or> coinB = [] then missing
             else if coinA = coinB then
               \<lparr> res = Status400 ''coinA and coinB must be different'', store = c, fetched = [] \<rparr>
             else
               (case cache_get (arrival w) c coinA coinB interval of
                  (Some klines, c1) \<Rightarrow> klines_json w coinA coinB interval klines c1 []
                | (None, c1) \<Rightarrow>
                    (case getSyntheticPair w (toUpperCase coinA) (toUpperCase coinB) interval limit of
                       (Inl message, fs) \<Rightarrow> \<lparr> res = Status500 message, store = c1, fetched = fs \<rparr>
                     | (Inr klines, fs) \<Rightarrow>
                         klines_json w coinA coinB interval klines
                           (snd (cache_set (settled w) c1 coinA coinB interval klines)) fs))
         | _ \<Rightarrow> missing)"

text \<open>
  \<open>app.post('/api/refresh')\<close>, on the three fields of the JSON body, strings
  when present. \<open>getSyntheticPair\<close> is called without a limit, so with its
  default 500.
\<close>

definition api_refresh ::
  "'p::inverse world \<Rightarrow> 'p kline list NodeCache \<Rightarrow>
   string option \<Rightarrow> string option \<Rightarrow> string option \<Rightarrow> 'p outcome" where
  "api_refresh w c qCoinA qCoinB qInterval =
     (let interval = (case qInterval of None \<Rightarrow> ''1h'' | Some i \<Rightarrow> i);
          missing = \<lparr> res = Status400 ''Missing required parameters: coinA and coinB'',
                      store = c, fetched = [] \<rparr>
      in case (qCoinA, qCoinB) of
           (Some coinA, Some coinB) \<Rightarrow>
             if coinA = [] \<or> coinB = [] then missing
             else
               (case cache_delete c coinA coinB interval of
                  (deleted, c1) \<Rightarrow>
                    (case getSyntheticPair w (toUpperCase coinA) (toUpperCase coinB) interval 500 of
                       (Inl message, fs) \<Rightarrow> \<lparr> res = Status500 message, store = c1, fetched = fs \<rparr>
                     | (Inr klines, fs) \<Rightarrow>
                         \<lparr> res = RefreshJson ''Cache refreshed'' (coinA @ ''/'' @ coinB) (length klines),
                           store = snd (cache_set (settled w) c1 coinA coinB interval klines),
                           fetched = fs \<rparr>))
         | _ \<Rightarrow> missing)"


section \<open>Concrete inputs\<close>

text \<open>
  The series of the specification's scenarios (section 8): three hourly candles
  of one asset, and a second asset that has no candle at \<open>t = 200\<close>; a third
  asset listed later, with no timestamp in common with the first; and a world
  whose provider serves these three symbols.
\<close>

definition btc :: "real kline list" where
  "btc =
     [\<lparr> time = 100, open = 20000, high = 20100, low = 19900, close = 20050, volume = 10 \<rparr>,
      \<lparr> time = 200, open = 20050, high = 20200, low = 20000, close = 20100, volume = 12 \<rparr>,
      \<lparr> time = 300, open = 20100, high = 20300, low = 20050, close = 20250, volume = 8 \<rparr>]"

definition eth :: "real kline list" where
  "eth =
     [\<lparr> time = 100, open = 2000, high = 2010, low = 1990, close = 2005, volume = 5 \<rparr>,
      \<lparr> time = 300, open = 2010, high = 2030, low = 2005, close = 2025, volume = 7 \<rparr>]"

definition sol :: "real kline list" where
  "sol = [\<lparr> time = 400, open = 150, high = 152, low = 149, close = 151, volume = 90 \<rparr>]"

definition binance :: "real world" where
  "binance =
     \<lparr> axios_get = (\<lambda>symbol interval limit.
         if symbol = ''BTCUSDT'' then Rows btc
         else if symbol = ''ETHUSDT'' then Rows eth
         else if symbol = ''SOLUSDT'' then Rows sol
         else ApiMsg ''Invalid symbol.''),
       bRejectsFirst = False,
       toFixed2 = (\<lambda>x. real_of_int (round (x * 100)) / 100),
       arrival = 1000,
       settled = 1001 \<rparr>"

section \<open>The synthetic series\<close>

lemma foldl_upd_map_of:
  "foldl (\<lambda>m (k, v). m(k \<mapsto> v)) m0 es = m0 ++ map_of (rev es)"
proof (induction es arbitrary: m0)
  case Nil
  show ?case by simp
next
  case (Cons e es)
  obtain k v where e: "e = (k, v)" by (cases e)
  have "foldl (\<lambda>m (k, v). m(k \<mapsto> v)) m0 (e # es) =
        foldl (\<lambda>m (k, v). m(k \<mapsto> v)) (m0(k \<mapsto> v)) es"
    unfolding e by simp
  also have "\<dots> = m0(k \<mapsto> v) ++ map_of (rev es)"
    by (rule Cons.IH)
  also have "\<dots> = m0 ++ ([k \<mapsto> v] ++ map_of (rev es))"
    by (rule ext) (simp add: map_add_def split: option.splits)
  also have "[k \<mapsto> v] ++ map_of (rev es) = map_of (rev (e # es))"
    unfolding e by (simp add: map_of_append)
  finally show ?case .
qed

lemma Map_of_rev: "Map_of es = map_of (rev es)"
  by (simp add: Map_of_def foldl_upd_map_of)

lemma klinesBMap_None: "klinesBMap B t = None \<longleftrightarrow> t \<notin> time ` set B"
  by (simp add: klinesBMap_def Map_of_rev map_of_eq_None_iff image_image rev_map [symmetric])

lemma klinesBMap_Some: "klinesBMap B t = Some b \<Longrightarrow> b \<in> set B \<and> time b = t"
  unfolding klinesBMap_def Map_of_rev
  by (auto dest!: map_of_SomeD)

lemma klinesBMap_distinct:
  assumes "distinct (map time B)" and "b \<in> set B"
  shows "klinesBMap B (time b) = Some b"
proof -
  have "distinct (map fst (rev (map (\<lambda>k. (time k, k)) B)))"
    using assms(1) by (simp add: rev_map [symmetric] comp_def)
  moreover have "(time b, b) \<in> set (rev (map (\<lambda>k. (time k, k)) B))"
    using assms(2) by auto
  ultimately show ?thesis
    unfolding klinesBMap_def Map_of_rev by (rule map_of_is_SomeI)
qed

lemma syntheticKlines_eq:
  "syntheticKlines A B =
     map (\<lambda>a. ratio a (the (klinesBMap B (time a)))) (filter (\<lambda>a. time a \<in> time ` set B) A)"
proof -
  have "map the (filter (\<lambda>k. k \<noteq> None) (map (synthetic m) A)) =
        map (\<lambda>a. ratio a (the (m (time a)))) (filter (\<lambda>a. m (time a) \<noteq> None) A)" for m :: "int \<rightharpoonup> 'a kline"
    by (induction A) (auto simp: synthetic_def split: option.splits)
  then show ?thesis
    unfolding syntheticKlines_def by (simp only: klinesBMap_None not_not)
qed

lemma time_ratio: "time (ratio a b) = time a"
  by (simp add: ratio_def)

lemma times_syntheticKlines:
  "map time (syntheticKlines A B) = filter (\<lambda>t. t \<in> time ` set B) (map time A)"
  by (simp add: syntheticKlines_eq filter_map comp_def time_ratio)

lemma length_syntheticKlines:
  assumes "distinct (map time A)"
  shows "length (syntheticKlines A B) = card (time ` set A \<inter> time ` set B)"
proof -
  have "length (syntheticKlines A B) = length (filter (\<lambda>t. t \<in> time ` set B) (map time A))"
    by (metis times_syntheticKlines length_map)
  also have "\<dots> = card (set (filter (\<lambda>t. t \<in> time ` set B) (map time A)))"
    using assms distinct_card [OF distinct_filter, of "map time A" "\<lambda>t. t \<in> time ` set B"] by presburger
  also have "set (filter (\<lambda>t. t \<in> time ` set B) (map time A)) = time ` set A \<inter> time ` set B"
    by auto
  finally show ?thesis .
qed

lemma filter_distinct_key:
  "distinct (map f xs) \<Longrightarrow> a \<in> set xs \<Longrightarrow> filter (\<lambda>x. f x = f a) xs = [a]"
proof (induction xs)
  case Nil
  then show ?case by simp
next
  case (Cons x xs)
  show ?case
  proof (cases "x = a")
    case True
    have "f a \<notin> f ` set xs"
      using Cons.prems(1) True by simp
    then have "\<forall>y \<in> set xs. f y \<noteq> f a"
      by (metis imageI)
    then have "filter (\<lambda>y. f y = f a) xs = []"
      by (simp add: filter_empty_conv)
    then show ?thesis using True by simp
  next
    case False
    then have "a \<in> set xs" using Cons.prems(2) by simp
    moreover have "f x \<noteq> f a" using Cons.prems(1) \<open>a \<in> set xs\<close> by auto
    ultimately show ?thesis using Cons by simp
  qed
qed

text \<open>
  Claim C1. Every candle of the synthetic series is, field by field, the
  quotient of a candle of series A by a candle of series B with the same
  timestamp (open by open, high by high, low by low, close by close), with the
  volume of the candle of series A. And when the timestamps of each series are
  unique, every timestamp present in both series has exactly one synthetic
  candle, the one built from the two candles at that timestamp.
\<close>
theorem syntheticKlines_fields:
  "(\<forall>r \<in> set (syntheticKlines A B). \<exists>a \<in> set A. \<exists>b \<in> set B.
       time a = time r \<and> time b = time r \<and>
       open r = open a / open b \<and> high r = high a / high b \<and>
       low r = low a / low b \<and> close r = close a / close b \<and>
       volume r = volume a) \<and>
   (distinct (map time A) \<and> distinct (map time B) \<longrightarrow>
      (\<forall>a \<in> set A. \<forall>b \<in> set B. time a = time b \<longrightarrow>
         (\<exists>r. filter (\<lambda>k. time k = time a) (syntheticKlines A B) = [r] \<and>
              open r = open a / open b \<and> high r = high a / high b \<and>
              low r = low a / low b \<and> close r = close a / close b \<and>
              volume r = volume a)))"
proof (intro conjI ballI impI)
  fix r assume "r \<in> set (syntheticKlines A B)"
  then obtain a where a: "a \<in> set A" "time a \<in> time ` set B"
    and r: "r = ratio a (the (klinesBMap B (time a)))"
    unfolding syntheticKlines_eq by auto
  from a(2) obtain b where b: "klinesBMap B (time a) = Some b"
    using klinesBMap_None [of B "time a"] by (cases "klinesBMap B (time a)") auto
  then have "b \<in> set B" "time b = time a"
    using klinesBMap_Some by blast+
  with a(1) r b show "\<exists>a \<in> set A. \<exists>b \<in> set B.
       time a = time r \<and> time b = time r \<and>
       open r = open a / open b \<and> high r = high a / high b \<and>
       low r = low a / low b \<and> close r = close a / close b \<and>
       volume r = volume a"
    by (intro bexI [of _ a] bexI [of _ b]) (simp_all add: ratio_def)
next
  fix a b
  assume d: "distinct (map time A) \<and> distinct (map time B)"
    and a: "a \<in> set A" and b: "b \<in> set B" and t: "time a = time b"
  let ?g = "\<lambda>a. ratio a (the (klinesBMap B (time a)))"
  have "filter (\<lambda>k. time k = time a) (syntheticKlines A B) =
        map ?g (filter (\<lambda>x. time x \<in> time ` set B) (filter (\<lambda>x. time x = time a) A))"
    unfolding syntheticKlines_eq by (simp add: filter_map comp_def time_ratio conj_commute)
  also have "filter (\<lambda>x. time x = time a) A = [a]"
    using d a by (simp add: filter_distinct_key)
  also have "filter (\<lambda>x. time x \<in> time ` set B) [a] = [a]"
    using b t by simp
  also have "map ?g [a] = [ratio a b]"
    using klinesBMap_distinct [of B b] d b t by simp
  finally have "filter (\<lambda>k. time k = time a) (syntheticKlines A B) = [ratio a b]" .
  then show "\<exists>r. filter (\<lambda>k. time k = time a) (syntheticKlines A B) = [r] \<and>
              open r = open a / open b \<and> high r = high a / high b \<and>
              low r = low a / low b \<and> close r = close a / close b \<and>
              volume r = volume a"
    by (simp add: ratio_def)
qed

text \<open>
  Claim C2, as amended. For two series with unique timestamps (as strictly
  increasing ones are) the synthetic series is no longer than the shorter of the
  two, and it is exactly that long if and only if the timestamps of one
  series all occur in the other.
\<close>
theorem syntheticKlines_length:
  assumes "distinct (map time A)" and "distinct (map time B)"
  shows "length (syntheticKlines A B) \<le> min (length A) (length B) \<and>
         (length (syntheticKlines A B) = min (length A) (length B) \<longleftrightarrow>
            time ` set A \<subseteq> time ` set B \<or> time ` set B \<subseteq> time ` set A)"
proof -
  let ?TA = "time ` set A" and ?TB = "time ` set B"
  have n: "length (syntheticKlines A B) = card (?TA \<inter> ?TB)"
    using assms(1) by (rule length_syntheticKlines)
  have la: "length A = card ?TA"
    using assms(1) distinct_card [of "map time A"] by simp
  have lb: "length B = card ?TB"
    using assms(2) distinct_card [of "map time B"] by simp
  have fa: "finite ?TA" and fb: "finite ?TB" by simp_all
  have lea: "card (?TA \<inter> ?TB) \<le> card ?TA" using fa by (simp add: card_mono)
  have leb: "card (?TA \<inter> ?TB) \<le> card ?TB" using fb by (simp add: card_mono)
  have eqa: "card (?TA \<inter> ?TB) = card ?TA \<longleftrightarrow> ?TA \<subseteq> ?TB"
  proof
    assume "card (?TA \<inter> ?TB) = card ?TA"
    then have "?TA \<inter> ?TB = ?TA" using fa by (intro card_subset_eq) auto
    then show "?TA \<subseteq> ?TB" by blast
  next
    assume "?TA \<subseteq> ?TB"
    then have "?TA \<inter> ?TB = ?TA" by blast
    then show "card (?TA \<inter> ?TB) = card ?TA" by simp
  qed
  have eqb: "card (?TA \<inter> ?TB) = card ?TB \<longleftrightarrow> ?TB \<subseteq> ?TA"
  proof
    assume "card (?TA \<inter> ?TB) = card ?TB"
    then have "?TA \<inter> ?TB = ?TB" using fb by (intro card_subset_eq) auto
    then show "?TB \<subseteq> ?TA" by blast
  next
    assume "?TB \<subseteq> ?TA"
    then have "?TA \<inter> ?TB = ?TB" by blast
    then show "card (?TA \<inter> ?TB) = card ?TB" by simp
  qed
  have "card (?TA \<inter> ?TB) = min (card ?TA) (card ?TB) \<longleftrightarrow>
        card (?TA \<inter> ?TB) = card ?TA \<or> card (?TA \<inter> ?TB) = card ?TB"
    using lea leb by (auto simp: min_def)
  then show ?thesis
    unfolding n la lb using lea leb eqa eqb by simp
qed

text \<open>
  Claim C4. The timestamps of the synthetic series are those of series A, in
  the order of series A, with the ones absent from series B left out; so when
  the timestamps of series A are strictly increasing, those of the synthetic
  series are too.
\<close>
theorem syntheticKlines_order:
  "map time (syntheticKlines A B) = filter (\<lambda>t. t \<in> time ` set B) (map time A) \<and>
   (sorted_wrt (<) (map time A) \<longrightarrow> sorted_wrt (<) (map time (syntheticKlines A B)))"
  unfolding times_syntheticKlines by (simp add: sorted_wrt_filter)

lemma getSyntheticPair_Inr:
  assumes "getKlines w (coinA @ ''USDT'') interval limit = Inr klinesA"
    and "getKlines w (coinB @ ''USDT'') interval limit = Inr klinesB"
  shows "fst (getSyntheticPair w coinA coinB interval limit) = Inr (syntheticKlines klinesA klinesB)"
  using assms by (simp add: getSyntheticPair_def)

lemma syntheticKlines_Nil_iff:
  "syntheticKlines A B = [] \<longleftrightarrow> time ` set A \<inter> time ` set B = {}"
  unfolding syntheticKlines_eq by (auto simp: filter_empty_conv)

text \<open>
  Claim C5. When both fetches succeed and the two series share no timestamp,
  \<open>getSyntheticPair\<close> returns the empty array, not an error.
\<close>
theorem getSyntheticPair_no_overlap:
  assumes "getKlines w (coinA @ ''USDT'') interval limit = Inr klinesA"
    and "getKlines w (coinB @ ''USDT'') interval limit = Inr klinesB"
    and "time ` set klinesA \<inter> time ` set klinesB = {}"
  shows "fst (getSyntheticPair w coinA coinB interval limit) = Inr []"
  using assms by (simp add: getSyntheticPair_def syntheticKlines_Nil_iff)


text \<open>The scenario, evaluated.\<close>

lemma syntheticKlines_btc_eth:
  "syntheticKlines btc eth =
     [\<lparr> time = 100, open = 10, high = 10, low = 10, close = 10, volume = 10 \<rparr>,
      \<lparr> time = 300, open = 10, high = 10, low = 10, close = 10, volume = 8 \<rparr>]"
  by (simp add: syntheticKlines_def klinesBMap_def Map_of_def synthetic_def ratio_def btc_def eth_def)

lemma times_btc: "map time btc = [100, 200, 300]"
  by (simp add: btc_def)

lemma times_eth: "map time eth = [100, 300]"
  by (simp add: eth_def)

text \<open>The candle at \<open>t = 300\<close> of the scenario.\<close>
theorem syntheticKlines_fields_witness:
  "distinct (map time btc) \<and> distinct (map time eth) \<and>
   (\<exists>r. filter (\<lambda>k. time k = 300) (syntheticKlines btc eth) = [r] \<and>
        open r = 20100 / 2010 \<and> high r = 20300 / 2030 \<and> low r = 20050 / 2005 \<and>
        close r = 20250 / 2025 \<and> volume r = 8)"
proof -
  let ?a = "\<lparr> time = 300, open = 20100, high = 20300, low = 20050, close = 20250, volume = 8 \<rparr> :: real kline"
  let ?b = "\<lparr> time = 300, open = 2010, high = 2030, low = 2005, close = 2025, volume = 7 \<rparr> :: real kline"
  have d: "distinct (map time btc) \<and> distinct (map time eth)"
    by (simp add: times_btc times_eth)
  have a: "?a \<in> set btc" by (simp add: btc_def)
  have b: "?b \<in> set eth" by (simp add: eth_def)
  have t: "time ?a = time ?b" by simp
  from syntheticKlines_fields [of btc eth, THEN conjunct2, rule_format, OF d a b t]
  show ?thesis using d by simp
qed

text \<open>
  Claim C2 as stated asks the two sets of timestamps to coincide whenever the
  length reaches the minimum. In the specification's own scenario series B
  lacks \<open>t = 200\<close>, and the result has two candles, the length of series B.
\<close>
theorem syntheticKlines_length_counterexample:
  "sorted_wrt (<) (map time btc) \<and> sorted_wrt (<) (map time eth) \<and>
   length (syntheticKlines btc eth) = min (length btc) (length eth) \<and>
   time ` set btc \<noteq> time ` set eth"
proof -
  have "200 \<in> set (map time btc)" "200 \<notin> set (map time eth)"
    unfolding times_btc times_eth by simp_all
  then have "set (map time btc) \<noteq> set (map time eth)" by blast
  then have "time ` set btc \<noteq> time ` set eth" by simp
  moreover have "length (syntheticKlines btc eth) = min (length btc) (length eth)"
    unfolding syntheticKlines_btc_eth by (simp add: btc_def eth_def)
  ultimately show ?thesis by (simp add: times_btc times_eth)
qed

text \<open>The amended claim at the scenario.\<close>
theorem syntheticKlines_length_witness:
  "distinct (map time btc) \<and> distinct (map time eth) \<and>
   length (syntheticKlines btc eth) \<le> min (length btc) (length eth) \<and>
   (length (syntheticKlines btc eth) = min (length btc) (length eth) \<longleftrightarrow>
      time ` set btc \<subseteq> time ` set eth \<or> time ` set eth \<subseteq> time ` set btc)"
proof -
  have d: "distinct (map time btc)" "distinct (map time eth)"
    by (simp_all add: times_btc times_eth)
  from syntheticKlines_length [OF d] show ?thesis using d by simp
qed

text \<open>The scenario again: timestamps 100 and 300, in this order.\<close>
theorem syntheticKlines_order_witness:
  "sorted_wrt (<) (map time btc) \<and>
   map time (syntheticKlines btc eth) = [100, 300] \<and>
   sorted_wrt (<) (map time (syntheticKlines btc eth))"
proof -
  have s: "sorted_wrt (<) (map time btc)" by (simp add: times_btc)
  have "sorted_wrt (<) (map time (syntheticKlines btc eth))"
    using syntheticKlines_order [of btc eth, THEN conjunct2] s by blast
  moreover have "map time (syntheticKlines btc eth) = [100, 300]"
    by (simp add: syntheticKlines_btc_eth)
  ultimately show ?thesis using s by blast
qed

text \<open>An asset listed after the last candle of the other.\<close>
theorem getSyntheticPair_no_overlap_witness:
  "time ` set btc \<inter> time ` set sol = {} \<and>
   fst (getSyntheticPair binance ''BTC'' ''SOL'' ''1h'' 500) = Inr []"
proof -
  have a: "getKlines binance (''BTC'' @ ''USDT'') ''1h'' 500 = Inr btc"
    by (simp add: getKlines_def binance_def)
  have b: "getKlines binance (''SOL'' @ ''USDT'') ''1h'' 500 = Inr sol"
    by (simp add: getKlines_def binance_def)
  have "set (map time btc) \<inter> set (map time sol) = {}"
    unfolding times_btc by (simp add: sol_def)
  then have c: "time ` set btc \<inter> time ` set sol = {}" by simp
  from getSyntheticPair_no_overlap [OF a b c] c show ?thesis by simp
qed

section \<open>The cache manager: TTL, keys, get after set\<close>

text \<open>
  The parts of the TTL table that hold: the finest and the coarsest interval,
  the range of the fifteen supported ones, the default for a name that is
  neither in the table nor inherited, and the expiry \<open>set\<close> gives an entry.
\<close>

lemma getTTL_finest: "getTTL ''1m'' = Seconds 60"
  by (simp add: getTTL_def ttlMap_def)

lemma getTTL_coarsest: "getTTL ''1M'' = Seconds 259200"
  by (simp add: getTTL_def ttlMap_def)

lemma ttlMap_range: "(k, n) \<in> set ttlMap \<Longrightarrow> 60 \<le> n \<and> n \<le> 259200"
  by (auto simp: ttlMap_def)

lemma getTTL_supported:
  assumes "interval \<in> fst ` set ttlMap"
  shows "\<exists>n. getTTL interval = Seconds n \<and> 60 \<le> n \<and> n \<le> 259200"
proof -
  from assms obtain n where n: "map_of ttlMap interval = Some n"
    by (cases "map_of ttlMap interval") (auto simp: map_of_eq_None_iff)
  then have "(interval, n) \<in> set ttlMap" by (rule map_of_SomeD)
  then have "60 \<le> n \<and> n \<le> 259200" by (rule ttlMap_range)
  then show ?thesis using n by (simp add: getTTL_def)
qed

lemma getTTL_default:
  assumes "interval \<notin> fst ` set ttlMap" and "interval \<notin> set Object_prototype"
  shows "getTTL interval = Seconds 300"
proof -
  have "map_of ttlMap interval = None"
    using assms(1) by (simp add: map_of_eq_None_iff)
  then show ?thesis using assms(2) by (simp add: getTTL_def)
qed

lemma getTTL_Seconds_ge:
  assumes "getTTL interval = Seconds n"
  shows "60 \<le> n"
proof (cases "map_of ttlMap interval")
  case None
  then show ?thesis using assms by (simp add: getTTL_def split: if_splits)
next
  case (Some m)
  then have "(interval, m) \<in> set ttlMap" by (rule map_of_SomeD)
  then have "60 \<le> m" using ttlMap_range by blast
  then show ?thesis using assms Some by (simp add: getTTL_def split: if_splits)
qed

lemma cache_set_store:
  "snd (cache_set now c coinA coinB interval data) =
     c(generateKey coinA coinB interval \<mapsto> \<lparr> val = data, expires = expiry_of now (getTTL interval) \<rparr>)"
  by (simp add: cache_set_def NodeCache_set_def)

lemma cache_set_expiry_finest:
  "snd (cache_set now c coinA coinB ''1m'' data) (generateKey coinA coinB ''1m'') =
     Some \<lparr> val = data, expires = At (now + 60) \<rparr>"
  by (simp add: cache_set_store getTTL_finest expiry_of_def)

text \<open>
  Claim C7 says that every unrecognized granularity yields the 300-second
  default. \<open>constructor\<close> is not a granularity of the table, yet
  \<open>ttlMap['constructor']\<close> reads the function the object literal inherits,
  and \<open>getTTL\<close> returns that instead of 300.
\<close>
theorem getTTL_inherited_property:
  "getTTL ''constructor'' = Inherited ''constructor'' \<and> getTTL ''constructor'' \<noteq> Seconds 300"
  by (simp add: getTTL_def ttlMap_def Object_prototype_def)

lemma takeWhile_separator:
  assumes "CHR ''_'' \<notin> set s"
  shows "takeWhile (\<lambda>ch. ch \<noteq> CHR ''_'') (s @ CHR ''_'' # rest) = s"
proof -
  have "\<And>x. x \<in> set s \<Longrightarrow> x \<noteq> CHR ''_''" using assms by blast
  then have "takeWhile (\<lambda>ch. ch \<noteq> CHR ''_'') (s @ CHR ''_'' # rest) =
             s @ takeWhile (\<lambda>ch. ch \<noteq> CHR ''_'') (CHR ''_'' # rest)"
    by (rule takeWhile_append2)
  then show ?thesis by simp
qed

text \<open>
  Claim C8, as amended. For two distinct symbols that contain no underscore,
  and every interval, the key of \<open>(A, B)\<close> differs from the key of \<open>(B, A)\<close>.
\<close>
theorem generateKey_order:
  assumes "CHR ''_'' \<notin> set coinA" and "CHR ''_'' \<notin> set coinB" and "coinA \<noteq> coinB"
  shows "generateKey coinA coinB interval \<noteq> generateKey coinB coinA interval"
proof
  assume "generateKey coinA coinB interval = generateKey coinB coinA interval"
  then have "coinA @ CHR ''_'' # (coinB @ ''_'' @ interval) = coinB @ CHR ''_'' # (coinA @ ''_'' @ interval)"
    by (simp add: generateKey_def)
  then have "takeWhile (\<lambda>ch. ch \<noteq> CHR ''_'') (coinA @ CHR ''_'' # (coinB @ ''_'' @ interval)) =
             takeWhile (\<lambda>ch. ch \<noteq> CHR ''_'') (coinB @ CHR ''_'' # (coinA @ ''_'' @ interval))"
    by (rule arg_cong)
  then have "coinA = coinB"
    by (simp only: takeWhile_separator [OF assms(1)] takeWhile_separator [OF assms(2)])
  then show False using assms(3) by contradiction
qed

text \<open>
  Claim C8 as stated, for every two distinct symbols, fails when a symbol
  contains the separator: \<open>a_a\<close> with \<open>a\<close> and \<open>a\<close> with \<open>a_a\<close> both give
  \<open>a_a_a_1h\<close>.
\<close>
theorem generateKey_order_counterexample:
  "''a_a'' \<noteq> ''a'' \<and> generateKey ''a_a'' ''a'' ''1h'' = generateKey ''a'' ''a_a'' ''1h''"
  by (simp add: generateKey_def)

text \<open>The amended claim at BTC and ETH.\<close>
theorem generateKey_order_witness:
  "CHR ''_'' \<notin> set ''BTC'' \<and> CHR ''_'' \<notin> set ''ETH'' \<and> ''BTC'' \<noteq> ''ETH'' \<and>
   generateKey ''BTC'' ''ETH'' ''1h'' \<noteq> generateKey ''ETH'' ''BTC'' ''1h''"
proof -
  have a: "CHR ''_'' \<notin> set ''BTC''" and b: "CHR ''_'' \<notin> set ''ETH''" and n: "''BTC'' \<noteq> ''ETH''"
    by simp_all
  from generateKey_order [OF a b n, of "''1h''"] a b n show ?thesis by blast
qed

lemma not_expired_after_set:
  assumes "now' \<le> now + 60"
  shows "\<not> expired now' \<lparr> val = data, expires = expiry_of now (getTTL interval) \<rparr>"
proof (cases "getTTL interval")
  case (Seconds n)
  then have "60 \<le> n" by (rule getTTL_Seconds_ge)
  then show ?thesis using assms Seconds by (simp add: expired_def expiry_of_def)
next
  case (Inherited name)
  then show ?thesis by (simp add: expired_def expiry_of_def)
qed

text \<open>
  Claim C9. \<open>set\<close> succeeds, and a \<open>get\<close> with the same coins and interval
  right after it (at any time up to 60 seconds later, the shortest TTL)
  returns the very value that was stored and leaves the store as it is. The
  value type is a parameter, so no copy or change of the value can hide in
  the store.
\<close>
theorem cache_get_after_set:
  assumes "now' \<le> now + 60"
  shows "fst (cache_set now c coinA coinB interval data) = True \<and>
         cache_get now' (snd (cache_set now c coinA coinB interval data)) coinA coinB interval =
           (Some data, snd (cache_set now c coinA coinB interval data))"
  using not_expired_after_set [OF assms, of data interval]
  by (simp add: cache_set_store cache_get_def NodeCache_get_def)
     (simp add: cache_set_def NodeCache_set_def)

text \<open>A series stored under BTC, ETH, 1h and read back at the same instant.\<close>
theorem cache_get_after_set_witness:
  "(1000::nat) \<le> 1000 + 60 \<and>
   cache_get 1000 (snd (cache_set 1000 Map.empty ''BTC'' ''ETH'' ''1h'' eth)) ''BTC'' ''ETH'' ''1h'' =
     (Some eth, [''BTC_ETH_1h'' \<mapsto> \<lparr> val = eth, expires = At 2800 \<rparr>])"
proof -
  have h: "(1000::nat) \<le> 1000 + 60" by simp
  have s: "snd (cache_set 1000 Map.empty ''BTC'' ''ETH'' ''1h'' eth) =
           [''BTC_ETH_1h'' \<mapsto> \<lparr> val = eth, expires = At 2800 \<rparr>]"
    by (simp add: cache_set_store generateKey_def getTTL_def ttlMap_def expiry_of_def)
  from cache_get_after_set [OF h, of Map.empty "''BTC''" "''ETH''" "''1h''" eth]
  show ?thesis unfolding s by simp
qed

section \<open>The request handlers\<close>

lemma cache_delete_eq:
  "cache_delete c coinA coinB interval =
     (if c (generateKey coinA coinB interval) = None then 0 else 1,
      c(generateKey coinA coinB interval := None))"
  by (simp add: cache_delete_def NodeCache_del_def)

lemma snd_getSyntheticPair:
  "snd (getSyntheticPair w coinA coinB interval limit) = [coinA @ ''USDT'', coinB @ ''USDT'']"
  by (simp add: getSyntheticPair_def)

text \<open>
  Claim C6. For every store, a force-refresh whose two symbols are supplied
  first deletes the key (the count removed is 0 when the key is absent, 1
  otherwise), then always requests both symbols from the provider. When the
  computation succeeds its result is stored under the key, with the TTL of
  the interval, and the response reports its length; when it fails the key is
  left deleted. The response is the same whatever the store held before.
\<close>
theorem api_refresh_fresh:
  assumes "coinA \<noteq> []" and "coinB \<noteq> []"
  shows
    "(let interval = (case qInterval of None \<Rightarrow> ''1h'' | Some i \<Rightarrow> i);
          key = generateKey coinA coinB interval;
          r = api_refresh w c (Some coinA) (Some coinB) qInterval
      in fst (cache_delete c coinA coinB interval) = (if c key = None then 0 else 1) \<and>
         fetched r = [toUpperCase coinA @ ''USDT'', toUpperCase coinB @ ''USDT''] \<and>
         (case fst (getSyntheticPair w (toUpperCase coinA) (toUpperCase coinB) interval 500) of
            Inr klines \<Rightarrow>
              res r = RefreshJson ''Cache refreshed'' (coinA @ ''/'' @ coinB) (length klines) \<and>
              store r = c(key \<mapsto> \<lparr> val = klines, expires = expiry_of (settled w) (getTTL interval) \<rparr>)
          | Inl message \<Rightarrow> res r = Status500 message \<and> store r = c(key := None)) \<and>
         (\<forall>c'. res (api_refresh w c' (Some coinA) (Some coinB) qInterval) = res r))"
proof -
  define interval where "interval = (case qInterval of None \<Rightarrow> ''1h'' | Some i \<Rightarrow> i)"
  define key where "key = generateKey coinA coinB interval"
  obtain out fs where g: "getSyntheticPair w (toUpperCase coinA) (toUpperCase coinB) interval 500 = (out, fs)"
    by (cases "getSyntheticPair w (toUpperCase coinA) (toUpperCase coinB) interval 500")
  have fs: "fs = [toUpperCase coinA @ ''USDT'', toUpperCase coinB @ ''USDT'']"
    using snd_getSyntheticPair [of w "toUpperCase coinA" "toUpperCase coinB" interval 500] g by simp
  have r: "api_refresh w c' (Some coinA) (Some coinB) qInterval =
      (case out of
         Inl message \<Rightarrow> \<lparr> res = Status500 message, store = c'(key := None), fetched = fs \<rparr>
       | Inr klines \<Rightarrow>
           \<lparr> res = RefreshJson ''Cache refreshed'' (coinA @ ''/'' @ coinB) (length klines),
             store = c'(key \<mapsto> \<lparr> val = klines, expires = expiry_of (settled w) (getTTL interval) \<rparr>),
             fetched = fs \<rparr>)" for c'
    using assms g
    by (simp add: api_refresh_def cache_delete_eq cache_set_store interval_def [symmetric]
        key_def [symmetric] split: sum.splits)
  show ?thesis
    unfolding Let_def interval_def [symmetric] key_def [symmetric] r g
    by (cases out) (simp_all add: cache_delete_eq key_def fs)
qed


lemma toUpperCase_BTC: "toUpperCase ''BTC'' = ''BTC''"
  by code_simp

lemma toUpperCase_ETH: "toUpperCase ''ETH'' = ''ETH''"
  by code_simp

lemma toUpperCase_SOL: "toUpperCase ''SOL'' = ''SOL''"
  by code_simp

lemma toUpperCase_btc: "toUpperCase ''btc'' = ''BTC''"
  by code_simp

lemma getSyntheticPair_BTC_ETH:
  "getSyntheticPair binance ''BTC'' ''ETH'' ''1h'' 500 =
     (Inr (syntheticKlines btc eth), [''BTCUSDT'', ''ETHUSDT''])"
  by (simp add: getSyntheticPair_def getKlines_def binance_def)

lemma getSyntheticPair_BTC_SOL:
  "getSyntheticPair binance ''BTC'' ''SOL'' ''1h'' 500 = (Inr [], [''BTCUSDT'', ''SOLUSDT''])"
proof -
  have "set (map time btc) \<inter> set (map time sol) = {}"
    unfolding times_btc by (simp add: sol_def)
  then have "syntheticKlines btc sol = []"
    by (simp add: syntheticKlines_Nil_iff)
  then show ?thesis
    by (simp add: getSyntheticPair_def getKlines_def binance_def)
qed

lemma getTTL_1h: "getTTL ''1h'' = Seconds 1800"
  by (simp add: getTTL_def ttlMap_def)

text \<open>A refresh of BTC/ETH over a store that holds another series under the key.\<close>
theorem api_refresh_fresh_witness:
  "''BTC'' \<noteq> [] \<and> ''ETH'' \<noteq> [] \<and>
   res (api_refresh binance [''BTC_ETH_1h'' \<mapsto> \<lparr> val = btc, expires = At 2800 \<rparr>]
          (Some ''BTC'') (Some ''ETH'') None) = RefreshJson ''Cache refreshed'' ''BTC/ETH'' 2 \<and>
   store (api_refresh binance [''BTC_ETH_1h'' \<mapsto> \<lparr> val = btc, expires = At 2800 \<rparr>]
          (Some ''BTC'') (Some ''ETH'') None) =
     [''BTC_ETH_1h'' \<mapsto> \<lparr> val = syntheticKlines btc eth, expires = At 2801 \<rparr>] \<and>
   fetched (api_refresh binance [''BTC_ETH_1h'' \<mapsto> \<lparr> val = btc, expires = At 2800 \<rparr>]
          (Some ''BTC'') (Some ''ETH'') None) = [''BTCUSDT'', ''ETHUSDT'']"
proof -
  have a: "''BTC'' \<noteq> []" and b: "''ETH'' \<noteq> []" by simp_all
  have k: "generateKey ''BTC'' ''ETH'' ''1h'' = ''BTC_ETH_1h''"
    by (simp add: generateKey_def)
  have n: "length (syntheticKlines btc eth) = 2"
    by (simp add: syntheticKlines_btc_eth)
  have e: "expiry_of (settled binance) (getTTL ''1h'') = At 2801"
    by (simp add: getTTL_1h expiry_of_def binance_def)
  from api_refresh_fresh [OF a b, of None binance "[''BTC_ETH_1h'' \<mapsto> \<lparr> val = btc, expires = At 2800 \<rparr>]"]
  show ?thesis
    unfolding Let_def option.case k toUpperCase_BTC toUpperCase_ETH getSyntheticPair_BTC_ETH fst_conv
      sum.case n e
    by simp
qed

lemma cache_get_hit:
  assumes "c (generateKey coinA coinB interval) = Some e" and "\<not> expired now e"
  shows "cache_get now c coinA coinB interval = (Some (val e), c)"
  using assms by (simp add: cache_get_def NodeCache_get_def)

lemma cache_get_cases:
  "cache_get now c coinA coinB interval = (hit, c1) \<Longrightarrow>
     (hit = None \<and> (c1 = c \<or> c1 = c(generateKey coinA coinB interval := None))) \<or>
     (\<exists>e. hit = Some (val e) \<and> c1 = c \<and> c (generateKey coinA coinB interval) = Some e)"
  by (auto simp: cache_get_def NodeCache_get_def split: option.splits if_splits)

text \<open>
  Claim C10, as amended. On the read path with two different supplied symbols,
  an empty series makes the request end in the error branch, with status 500
  and the TypeError of reading \<open>close\<close> of \<open>undefined\<close>. When the empty series
  was computed after a cache miss, it has been stored under the key before, with
  the TTL of the interval; when it came from the cache, nothing is fetched and
  the store is left as it was.
\<close>
theorem api_klines_empty_series:
  assumes "coinA \<noteq> []" and "coinB \<noteq> []" and "coinA \<noteq> coinB"
  shows
    "(let interval = (case qInterval of None \<Rightarrow> ''1h'' | Some i \<Rightarrow> i);
          limit = (case qLimit of None \<Rightarrow> 500 | Some l \<Rightarrow> l);
          r = api_klines w c (Some coinA) (Some coinB) qInterval qLimit
      in case cache_get (arrival w) c coinA coinB interval of
           (Some klines, c1) \<Rightarrow>
             klines = [] \<longrightarrow>
               res r = Status500 TypeError_close \<and> store r = c \<and> fetched r = []
         | (None, c1) \<Rightarrow>
             fst (getSyntheticPair w (toUpperCase coinA) (toUpperCase coinB) interval limit) = Inr [] \<longrightarrow>
               res r = Status500 TypeError_close \<and>
               store r = snd (cache_set (settled w) c1 coinA coinB interval []) \<and>
               store r (generateKey coinA coinB interval) =
                 Some \<lparr> val = [], expires = expiry_of (settled w) (getTTL interval) \<rparr> \<and>
               fetched r = [toUpperCase coinA @ ''USDT'', toUpperCase coinB @ ''USDT''])"
proof -
  define interval where "interval = (case qInterval of None \<Rightarrow> ''1h'' | Some i \<Rightarrow> i)"
  define limit where "limit = (case qLimit of None \<Rightarrow> 500 | Some l \<Rightarrow> l)"
  obtain hit c1 where h: "cache_get (arrival w) c coinA coinB interval = (hit, c1)"
    by (cases "cache_get (arrival w) c coinA coinB interval")
  obtain out fs where g:
    "getSyntheticPair w (toUpperCase coinA) (toUpperCase coinB) interval limit = (out, fs)"
    by (cases "getSyntheticPair w (toUpperCase coinA) (toUpperCase coinB) interval limit")
  have fs: "fs = [toUpperCase coinA @ ''USDT'', toUpperCase coinB @ ''USDT'']"
    using snd_getSyntheticPair [of w "toUpperCase coinA" "toUpperCase coinB" interval limit] g by simp
  have r: "api_klines w c (Some coinA) (Some coinB) qInterval qLimit =
      (case hit of
         Some klines \<Rightarrow> klines_json w coinA coinB interval klines c1 []
       | None \<Rightarrow>
           (case out of
              Inl message \<Rightarrow> \<lparr> res = Status500 message, store = c1, fetched = fs \<rparr>
            | Inr klines \<Rightarrow>
                klines_json w coinA coinB interval klines
                  (snd (cache_set (settled w) c1 coinA coinB interval klines)) fs))"
    using assms h g
    by (simp add: api_klines_def interval_def [symmetric] limit_def [symmetric]
        split: option.splits sum.splits)
  have e: "klines_json w coinA coinB interval [] c2 fs2 =
           \<lparr> res = Status500 TypeError_close, store = c2, fetched = fs2 \<rparr>" for c2 fs2
    by (simp add: klines_json_def statistics_def)
  show ?thesis
  proof (cases hit)
    case None
    then show ?thesis
      unfolding Let_def interval_def [symmetric] limit_def [symmetric] r h g
      by (simp add: e fs cache_set_store)
  next
    case (Some klines)
    then have "c1 = c" using cache_get_cases [OF h] by auto
    then show ?thesis
      unfolding Let_def interval_def [symmetric] limit_def [symmetric] r h g
      using Some by (simp add: e)
  qed
qed


text \<open>
  What the validation does reject, before the cache is read and before any
  fetch: a missing or empty symbol on both paths, and two identical symbols on
  the read path.
\<close>

lemma api_klines_missing:
  assumes "qCoinA = None \<or> qCoinA = Some [] \<or> qCoinB = None \<or> qCoinB = Some []"
  shows "api_klines w c qCoinA qCoinB qInterval qLimit =
           \<lparr> res = Status400 ''Missing required parameters: coinA and coinB'', store = c, fetched = [] \<rparr>"
  using assms by (auto simp: api_klines_def Let_def split: option.splits)

lemma api_refresh_missing:
  assumes "qCoinA = None \<or> qCoinA = Some [] \<or> qCoinB = None \<or> qCoinB = Some []"
  shows "api_refresh w c qCoinA qCoinB qInterval =
           \<lparr> res = Status400 ''Missing required parameters: coinA and coinB'', store = c, fetched = [] \<rparr>"
  using assms by (auto simp: api_refresh_def Let_def split: option.splits)

lemma api_klines_identical:
  assumes "coinA \<noteq> []"
  shows "api_klines w c (Some coinA) (Some coinA) qInterval qLimit =
           \<lparr> res = Status400 ''coinA and coinB must be different'', store = c, fetched = [] \<rparr>"
  using assms by (simp add: api_klines_def)

text \<open>
  Claim C3 says that equal symbols (compared after normalization to uppercase)
  fail with an invalid-input error before any fetch, on the read path and on
  the force-refresh path. The force-refresh handler has no such check: with
  BTC twice it requests BTCUSDT twice and never answers 400. The read path
  compares the symbols as supplied, before \<open>toUpperCase\<close>: with \<open>btc\<close> and
  \<open>BTC\<close> on a cache miss it does the same.
\<close>
theorem equal_symbols_fetched:
  "fetched (api_refresh w c (Some ''BTC'') (Some ''BTC'') qInterval) = [''BTCUSDT'', ''BTCUSDT''] \<and>
   (\<forall>message. res (api_refresh w c (Some ''BTC'') (Some ''BTC'') qInterval) \<noteq> Status400 message) \<and>
   fetched (api_klines w Map.empty (Some ''btc'') (Some ''BTC'') qInterval qLimit) =
     [''BTCUSDT'', ''BTCUSDT''] \<and>
   (\<forall>message. res (api_klines w Map.empty (Some ''btc'') (Some ''BTC'') qInterval qLimit) \<noteq>
      Status400 message)"
proof -
  define interval where "interval = (case qInterval of None \<Rightarrow> ''1h'' | Some i \<Rightarrow> i)"
  define limit where "limit = (case qLimit of None \<Rightarrow> 500 | Some l \<Rightarrow> l)"
  obtain out fs where g: "getSyntheticPair w ''BTC'' ''BTC'' interval 500 = (out, fs)"
    by (cases "getSyntheticPair w ''BTC'' ''BTC'' interval 500")
  have fs: "fs = [''BTCUSDT'', ''BTCUSDT'']"
    using snd_getSyntheticPair [of w "''BTC''" "''BTC''" interval 500] g by simp
  obtain out' fs' where g': "getSyntheticPair w ''BTC'' ''BTC'' interval limit = (out', fs')"
    by (cases "getSyntheticPair w ''BTC'' ''BTC'' interval limit")
  have fs': "fs' = [''BTCUSDT'', ''BTCUSDT'']"
    using snd_getSyntheticPair [of w "''BTC''" "''BTC''" interval limit] g' by simp
  have refresh: "fetched (api_refresh w c (Some ''BTC'') (Some ''BTC'') qInterval) = fs \<and>
      (\<forall>message. res (api_refresh w c (Some ''BTC'') (Some ''BTC'') qInterval) \<noteq> Status400 message)"
    using g
    by (simp add: api_refresh_def cache_delete_eq toUpperCase_BTC interval_def [symmetric]
        split: sum.splits)
  have klines: "fetched (api_klines w Map.empty (Some ''btc'') (Some ''BTC'') qInterval qLimit) = fs' \<and>
      (\<forall>message. res (api_klines w Map.empty (Some ''btc'') (Some ''BTC'') qInterval qLimit) \<noteq>
         Status400 message)"
    using g'
    by (simp add: api_klines_def cache_get_def NodeCache_get_def toUpperCase_BTC toUpperCase_btc
        interval_def [symmetric] limit_def [symmetric] klines_json_def split: sum.splits)
  from refresh klines show ?thesis unfolding fs fs' by blast
qed

text \<open>
  Claim C10 as stated has the handler store the empty series whenever the
  series to be returned is empty. With an empty series already in the cache the
  request fails in the same way, but the store is unchanged: the entry keeps
  its expiry 2000, where a \<open>set\<close> at this moment would give 2801.
\<close>
theorem api_klines_empty_series_counterexample:
  "res (api_klines binance [''BTC_SOL_1h'' \<mapsto> \<lparr> val = [], expires = At 2000 \<rparr>]
          (Some ''BTC'') (Some ''SOL'') None None) = Status500 TypeError_close \<and>
   fetched (api_klines binance [''BTC_SOL_1h'' \<mapsto> \<lparr> val = [], expires = At 2000 \<rparr>]
          (Some ''BTC'') (Some ''SOL'') None None) = [] \<and>
   store (api_klines binance [''BTC_SOL_1h'' \<mapsto> \<lparr> val = [], expires = At 2000 \<rparr>]
          (Some ''BTC'') (Some ''SOL'') None None) =
     [''BTC_SOL_1h'' \<mapsto> \<lparr> val = [], expires = At 2000 \<rparr>] \<and>
   store (api_klines binance [''BTC_SOL_1h'' \<mapsto> \<lparr> val = [], expires = At 2000 \<rparr>]
          (Some ''BTC'') (Some ''SOL'') None None) \<noteq>
     snd (cache_set (settled binance) [''BTC_SOL_1h'' \<mapsto> \<lparr> val = [], expires = At 2000 \<rparr>]
            ''BTC'' ''SOL'' ''1h'' [])"
proof -
  let ?c = "[''BTC_SOL_1h'' \<mapsto> \<lparr> val = [], expires = At 2000 \<rparr>] :: real kline list NodeCache"
  have k: "generateKey ''BTC'' ''SOL'' ''1h'' = ''BTC_SOL_1h''"
    by (simp add: generateKey_def)
  have h: "cache_get (arrival binance) ?c ''BTC'' ''SOL'' ''1h'' = (Some [], ?c)"
    by (simp add: cache_get_def NodeCache_get_def k expired_def binance_def)
  have r: "api_klines binance ?c (Some ''BTC'') (Some ''SOL'') None None =
           \<lparr> res = Status500 TypeError_close, store = ?c, fetched = [] \<rparr>"
    by (simp add: api_klines_def h klines_json_def statistics_def)
  have "snd (cache_set (settled binance) ?c ''BTC'' ''SOL'' ''1h'' []) ''BTC_SOL_1h'' =
        Some \<lparr> val = [], expires = At 2801 \<rparr>"
    by (simp add: cache_set_store k getTTL_1h expiry_of_def binance_def)
  moreover have "?c ''BTC_SOL_1h'' = Some \<lparr> val = [], expires = At 2000 \<rparr>"
    by simp
  ultimately have "?c ''BTC_SOL_1h'' \<noteq>
      snd (cache_set (settled binance) ?c ''BTC'' ''SOL'' ''1h'' []) ''BTC_SOL_1h''"
    by simp
  then have "?c \<noteq> snd (cache_set (settled binance) ?c ''BTC'' ''SOL'' ''1h'' [])"
    by (rule contrapos_nn) (rule arg_cong [where f = "\<lambda>m. m ''BTC_SOL_1h''"])
  then show ?thesis unfolding r by simp
qed


text \<open>
  Both cases at BTC and SOL, which share no timestamp: the first request
  misses and stores the empty series, the second finds it in the cache.
\<close>
theorem api_klines_empty_series_witness:
  "''BTC'' \<noteq> [] \<and> ''SOL'' \<noteq> [] \<and> ''BTC'' \<noteq> ''SOL'' \<and>
   res (api_klines binance Map.empty (Some ''BTC'') (Some ''SOL'') None None) =
     Status500 TypeError_close \<and>
   store (api_klines binance Map.empty (Some ''BTC'') (Some ''SOL'') None None) =
     [''BTC_SOL_1h'' \<mapsto> \<lparr> val = [], expires = At 2801 \<rparr>] \<and>
   fetched (api_klines binance Map.empty (Some ''BTC'') (Some ''SOL'') None None) =
     [''BTCUSDT'', ''SOLUSDT''] \<and>
   res (api_klines binance [''BTC_SOL_1h'' \<mapsto> \<lparr> val = [], expires = At 2801 \<rparr>]
          (Some ''BTC'') (Some ''SOL'') None None) = Status500 TypeError_close \<and>
   fetched (api_klines binance [''BTC_SOL_1h'' \<mapsto> \<lparr> val = [], expires = At 2801 \<rparr>]
          (Some ''BTC'') (Some ''SOL'') None None) = []"
proof -
  let ?c = "[''BTC_SOL_1h'' \<mapsto> \<lparr> val = [], expires = At 2801 \<rparr>] :: real kline list NodeCache"
  have a: "''BTC'' \<noteq> []" and b: "''SOL'' \<noteq> []" and n: "''BTC'' \<noteq> ''SOL''"
    by simp_all
  have k: "generateKey ''BTC'' ''SOL'' ''1h'' = ''BTC_SOL_1h''"
    by (simp add: generateKey_def)
  have e: "expiry_of (settled binance) (getTTL ''1h'') = At 2801"
    by (simp add: getTTL_1h expiry_of_def binance_def)
  have miss: "cache_get (arrival binance) (Map.empty :: real kline list NodeCache) ''BTC'' ''SOL'' ''1h'' =
              (None, Map.empty)"
    by (simp add: cache_get_def NodeCache_get_def)
  have hit: "cache_get (arrival binance) ?c ''BTC'' ''SOL'' ''1h'' = (Some [], ?c)"
    by (simp add: cache_get_def NodeCache_get_def k expired_def binance_def)
  have s: "snd (cache_set (settled binance) (Map.empty :: real kline list NodeCache) ''BTC'' ''SOL'' ''1h'' []) = ?c"
    by (simp add: cache_set_store k e)
  have first: "res (api_klines binance Map.empty (Some ''BTC'') (Some ''SOL'') None None) =
       Status500 TypeError_close \<and>
     store (api_klines binance Map.empty (Some ''BTC'') (Some ''SOL'') None None) = ?c \<and>
     fetched (api_klines binance Map.empty (Some ''BTC'') (Some ''SOL'') None None) =
       [''BTCUSDT'', ''SOLUSDT'']"
    using api_klines_empty_series [OF a b n, of None None binance Map.empty]
    unfolding Let_def option.case miss prod.case toUpperCase_BTC toUpperCase_SOL
      getSyntheticPair_BTC_SOL fst_conv s
    by simp
  have second: "res (api_klines binance ?c (Some ''BTC'') (Some ''SOL'') None None) =
       Status500 TypeError_close \<and>
     fetched (api_klines binance ?c (Some ''BTC'') (Some ''SOL'') None None) = []"
    using api_klines_empty_series [OF a b n, of None None binance ?c]
    unfolding Let_def option.case hit prod.case
    by simp
  from first second show ?thesis by simp
qed

end
